theory Spec2Isabelle
  imports Main
begin

section \<open>Strings and exceptions\<close>

text \<open>
  A Python \<open>str\<close> is a sequence of Unicode code points, and \<open>len\<close> counts code
  points; a string is therefore modelled as a list of code points. \<open>ascii\<close> reads an
  ASCII literal.
\<close>

type_synonym pystr = "nat list"

definition ascii :: "string \<Rightarrow> pystr" where
  "ascii s = map of_char s"

text \<open>
  The exceptions raised by \<open>main.py\<close> and by the library calls it makes. The message
  is kept where the source writes a constant one.
\<close>

datatype py_error = ValueError string | KeyError string | OverflowError string

section \<open>The regular expression class \<open>\d\<close>\<close>

text \<open>
  For a \<open>str\<close> pattern, \<open>\d\<close> matches every character of Unicode category Nd, not only
  \<open>0\<close>..\<open>9\<close>. The decimal digits come in runs of ten consecutive code points with the
  values 0..9; \<open>nd_zeros\<close> lists the code point of the zero of every run (Unicode 14.0,
  the table of CPython 3.11). \<open>int\<close> reads the same characters with the same values.
\<close>

definition nd_zeros :: "nat list" where
  "nd_zeros =
    [48, 1632, 1776, 1984, 2406, 2534, 2662, 2790, 2918, 3046, 3174, 3302, 3430, 3558,
     3664, 3792, 3872, 4160, 4240, 6112, 6160, 6470, 6608, 6784, 6800, 6992, 7088, 7232,
     7248, 42528, 43216, 43264, 43472, 43504, 43600, 44016, 65296, 66720, 68912, 69734,
     69872, 69942, 70096, 70384, 70736, 70864, 71248, 71360, 71472, 71904, 72016, 72784,
     73040, 73120, 92768, 92864, 93008, 120782, 120792, 120802, 120812, 120822, 123200,
     123632, 125264, 130032]"

definition decimal_value :: "nat \<Rightarrow> nat option" where
  "decimal_value c =
     (case List.find (\<lambda>z. z \<le> c \<and> c < z + 10) nd_zeros of
        None \<Rightarrow> None
      | Some z \<Rightarrow> Some (c - z))"

definition re_digit :: "nat \<Rightarrow> bool" where
  "re_digit c = (decimal_value c \<noteq> None)"

text \<open>The reading of "ASCII digit" in the specification.\<close>

definition ascii_digit :: "nat \<Rightarrow> bool" where
  "ascii_digit c = (48 \<le> c \<and> c \<le> 57)"

section \<open>Validated fields: \<open>Name\<close> and \<open>Phone\<close>\<close>

text \<open>\<open>Name.__init__\<close>: the value is kept when \<open>len(value) != 0\<close>.\<close>

definition Name :: "pystr \<Rightarrow> py_error + pystr" where
  "Name v = (if length v \<noteq> 0 then Inr v else Inl (ValueError ''Name cannot be empty''))"

text \<open>
  \<open>re.match(r"^\d+$", number)\<close>: \<open>\d+\<close> is greedy and takes the longest run of digits
  at the start (at least one); without \<open>re.MULTILINE\<close>, \<open>$\<close> then matches at the end of
  the string and also just before a line feed that is its last character. Giving back
  digits cannot help, since \<open>$\<close> does not match in front of a digit.
\<close>

definition re_match_digits :: "pystr \<Rightarrow> bool" where
  "re_match_digits s =
     (let ds = takeWhile re_digit s; rest = dropWhile re_digit s
      in ds \<noteq> [] \<and> (rest = [] \<or> rest = [10]))"

definition validate_number :: "pystr \<Rightarrow> bool" where
  "validate_number number = (length number = 10 \<and> re_match_digits number)"

definition Phone :: "pystr \<Rightarrow> py_error + pystr" where
  "Phone number =
     (if validate_number number then Inr number
      else Inl (ValueError ''Invalid phone number''))"

section \<open>Calendar dates\<close>

text \<open>
  \<open>datetime.date\<close>: three fields, checked by the constructor
  (\<open>_check_date_fields\<close>): the year in \<open>MINYEAR..MAXYEAR\<close> (1..9999), the month in
  1..12, the day in 1..\<open>_days_in_month(year, month)\<close>. The messages that carry a number
  are shortened.
\<close>

record date =
  year :: nat
  month :: nat
  day :: nat

definition is_leap :: "nat \<Rightarrow> bool" where
  "is_leap y = (y mod 4 = 0 \<and> (y mod 100 \<noteq> 0 \<or> y mod 400 = 0))"

definition DAYS_IN_MONTH :: "nat list" where
  "DAYS_IN_MONTH = [0, 31, 28, 31, 30, 31, 30, 31, 31, 30, 31, 30, 31]"

definition days_in_month :: "nat \<Rightarrow> nat \<Rightarrow> nat" where
  "days_in_month y m = (if m = 2 \<and> is_leap y then 29 else DAYS_IN_MONTH ! m)"

definition mk_date :: "nat \<Rightarrow> nat \<Rightarrow> nat \<Rightarrow> py_error + date" where
  "mk_date y m d =
     (if \<not> (1 \<le> y \<and> y \<le> 9999) then Inl (ValueError ''year is out of range'')
      else if \<not> (1 \<le> m \<and> m \<le> 12) then Inl (ValueError ''month must be in 1..12'')
      else if \<not> (1 \<le> d \<and> d \<le> days_in_month y m)
        then Inl (ValueError ''day is out of range for month'')
      else Inr \<lparr>year = y, month = m, day = d\<rparr>)"

text \<open>\<open>date.replace(year=y)\<close> builds a new date from the changed fields, with the checks.\<close>

definition replace_year :: "date \<Rightarrow> nat \<Rightarrow> py_error + date" where
  "replace_year d y = mk_date y (month d) (day d)"

text \<open>\<open>a <= b\<close> on dates compares (year, month, day).\<close>

definition date_le :: "date \<Rightarrow> date \<Rightarrow> bool" where
  "date_le a b =
     (year a < year b \<or> (year a = year b \<and>
        (month a < month b \<or> (month a = month b \<and> day a \<le> day b))))"

text \<open>
  \<open>d + timedelta(days=n)\<close> is the date \<open>n\<close> days after \<open>d\<close>, and raises
  \<open>OverflowError\<close> when that date is after 31.12.9999. The library computes it through
  day ordinals; here the calendar is walked a day at a time.
\<close>

definition next_day :: "date \<Rightarrow> date" where
  "next_day d =
     (if day d < days_in_month (year d) (month d) then d\<lparr>day := day d + 1\<rparr>
      else if month d < 12 then d\<lparr>month := month d + 1, day := 1\<rparr>
      else \<lparr>year = year d + 1, month = 1, day = 1\<rparr>)"

definition add_days :: "date \<Rightarrow> nat \<Rightarrow> py_error + date" where
  "add_days d n =
     (let r = (next_day ^^ n) d
      in if year r \<le> 9999 then Inr r else Inl (OverflowError ''date value out of range''))"

section \<open>\<open>strptime\<close> and \<open>strftime\<close> with the format \<open>%d.%m.%Y\<close>\<close>

text \<open>
  \<open>_strptime\<close> turns the format into the regular expression
  \<open>(?P<d>3[0-1]|[1-2]\d|0[1-9]|[1-9]| [1-9])\.(?P<m>1[0-2]|0[1-9]|[1-9])\.(?P<Y>\d\d\d\d)\<close>
  and matches it at the start of the input. A piece of a regular expression is modelled
  by the list of the ways it matches a prefix of the input, in the order in which the
  backtracking matcher tries them: each way is the text matched and the input left.
  (\<open>re.IGNORECASE\<close> changes nothing: no character has a digit, a dot or a blank as its
  other case.)
\<close>

type_synonym piece = "pystr \<Rightarrow> (pystr \<times> pystr) list"

definition in_range :: "nat \<Rightarrow> nat \<Rightarrow> nat \<Rightarrow> bool" where
  "in_range lo hi c = (lo \<le> c \<and> c \<le> hi)"

fun one :: "(nat \<Rightarrow> bool) \<Rightarrow> piece" where
  "one p (a # r) = (if p a then [([a], r)] else [])"
| "one p [] = []"

fun two :: "(nat \<Rightarrow> bool) \<Rightarrow> (nat \<Rightarrow> bool) \<Rightarrow> piece" where
  "two p q (a # b # r) = (if p a \<and> q b then [([a, b], r)] else [])"
| "two p q [a] = []"
| "two p q [] = []"

definition re_d :: piece where
  "re_d s =
     two (in_range 51 51) (in_range 48 49) s @
     two (in_range 49 50) re_digit s @
     two (in_range 48 48) (in_range 49 57) s @
     one (in_range 49 57) s @
     two (in_range 32 32) (in_range 49 57) s"

definition re_m :: piece where
  "re_m s =
     two (in_range 49 49) (in_range 48 50) s @
     two (in_range 48 48) (in_range 49 57) s @
     one (in_range 49 57) s"

definition re_Y :: piece where
  "re_Y s =
     concat (map (\<lambda>(ab, r). map (\<lambda>(cd, r'). (ab @ cd, r')) (two re_digit re_digit r))
       (two re_digit re_digit s))"

definition re_dot :: piece where
  "re_dot s = one (in_range 46 46) s"

definition format_regex :: "pystr \<Rightarrow> ((pystr \<times> pystr \<times> pystr) \<times> pystr) list" where
  "format_regex s =
     [((d, m, y), r5). (d, r1) \<leftarrow> re_d s, (p, r2) \<leftarrow> re_dot r1, (m, r3) \<leftarrow> re_m r2,
        (q, r4) \<leftarrow> re_dot r3, (y, r5) \<leftarrow> re_Y r4]"

text \<open>
  \<open>int(group)\<close> on the text of a group: blanks around the number are dropped (only a
  leading blank occurs, in the day), and the decimal digits are read. \<open>int\<close> also reads
  signs and underscores; no group holds one, and the model raises for them.
\<close>

fun digits_value :: "nat \<Rightarrow> pystr \<Rightarrow> nat option" where
  "digits_value acc [] = Some acc"
| "digits_value acc (c # cs) =
     (case decimal_value c of
        None \<Rightarrow> None
      | Some v \<Rightarrow> digits_value (10 * acc + v) cs)"

definition py_int :: "pystr \<Rightarrow> py_error + nat" where
  "py_int s =
     (let t = dropWhile (\<lambda>c. c = 32) s
      in if t = [] then Inl (ValueError ''invalid literal for int() with base 10'')
         else (case digits_value 0 t of
                 None \<Rightarrow> Inl (ValueError ''invalid literal for int() with base 10'')
               | Some n \<Rightarrow> Inr n))"

text \<open>
  \<open>datetime.strptime(s, '%d.%m.%Y').date()\<close>: the first match of the expression is
  taken; it must reach the end of the input; the groups are converted and the date is
  built, with its checks.
\<close>

definition strptime_dmY :: "pystr \<Rightarrow> py_error + date" where
  "strptime_dmY s =
     (case format_regex s of
        [] \<Rightarrow> Inl (ValueError ''time data does not match format'')
      | ((d, m, y), rest) # _ \<Rightarrow>
          if rest \<noteq> [] then Inl (ValueError ''unconverted data remains'')
          else (case py_int d of Inl e \<Rightarrow> Inl e | Inr dd \<Rightarrow>
                (case py_int m of Inl e \<Rightarrow> Inl e | Inr mm \<Rightarrow>
                 (case py_int y of Inl e \<Rightarrow> Inl e | Inr yy \<Rightarrow> mk_date yy mm dd))))"

text \<open>
  \<open>date.strftime('%d.%m.%Y')\<close>: day and month are written with two digits. The C
  library writes \<open>%Y\<close>; some pad the year to four digits and some (glibc) do not, which
  shows for the years before 1000. \<open>pad\<close> says which library it is.
\<close>

fun decimal :: "nat \<Rightarrow> pystr" where
  "decimal n = (if n < 10 then [48 + n] else decimal (n div 10) @ [48 + n mod 10])"

declare decimal.simps [simp del]

definition zfill :: "nat \<Rightarrow> pystr \<Rightarrow> pystr" where
  "zfill k s = replicate (k - length s) 48 @ s"

definition strftime_dmY :: "bool \<Rightarrow> date \<Rightarrow> pystr" where
  "strftime_dmY pad d =
     zfill 2 (decimal (day d)) @ [46] @ zfill 2 (decimal (month d)) @ [46] @
     (if pad then zfill 4 (decimal (year d)) else decimal (year d))"

section \<open>The validated field \<open>Birthday\<close>\<close>

text \<open>
  \<open>Birthday.__init__\<close>: every \<open>ValueError\<close> of the parse is replaced by one with the
  message of the class.
\<close>

definition Birthday :: "pystr \<Rightarrow> py_error + date" where
  "Birthday v =
     (case strptime_dmY v of
        Inl (ValueError msg) \<Rightarrow> Inl (ValueError ''Invalid date format. Use DD.MM.YYYY'')
      | Inl e \<Rightarrow> Inl e
      | Inr d \<Rightarrow> Inr d)"

text \<open>The strict reading of \<open>DD.MM.YYYY\<close> in the specification.\<close>

fun strict_form :: "pystr \<Rightarrow> bool" where
  "strict_form [d1, d2, p, m1, m2, q, y1, y2, y3, y4] =
     (ascii_digit d1 \<and> ascii_digit d2 \<and> p = 46 \<and> ascii_digit m1 \<and> ascii_digit m2 \<and>
      q = 46 \<and> ascii_digit y1 \<and> ascii_digit y2 \<and> ascii_digit y3 \<and> ascii_digit y4)"
| "strict_form _ = False"

section \<open>Contact records\<close>

text \<open>
  A \<open>Record\<close> object: the value of its \<open>Name\<close>, the values of its \<open>Phone\<close> objects in
  list order (two \<open>Phone\<close>s are equal when their values are), and the date of its
  \<open>Birthday\<close>, if set. A method that mutates the object takes the record and returns
  what it raised or returned together with the record as the call leaves it.
\<close>

record record_obj =
  name :: pystr
  phones :: "pystr list"
  birthday :: "date option"

definition Record :: "pystr \<Rightarrow> py_error + record_obj" where
  "Record n =
     (case Name n of
        Inl e \<Rightarrow> Inl e
      | Inr v \<Rightarrow> Inr \<lparr>name = v, phones = [], birthday = None\<rparr>)"

definition add_phone :: "pystr \<Rightarrow> record_obj \<Rightarrow> (py_error + unit) \<times> record_obj" where
  "add_phone phone_number r =
     (case Phone phone_number of
        Inl e \<Rightarrow> (Inl e, r)
      | Inr number \<Rightarrow> (Inr (), r\<lparr>phones := phones r @ [number]\<rparr>))"

text \<open>\<open>list.remove(x)\<close> deletes the first item equal to \<open>x\<close> and raises when there is none.\<close>

fun list_remove :: "'a \<Rightarrow> 'a list \<Rightarrow> py_error + 'a list" where
  "list_remove x [] = Inl (ValueError ''list.remove(x): x not in list'')"
| "list_remove x (y # ys) =
     (if y = x then Inr ys
      else (case list_remove x ys of Inl e \<Rightarrow> Inl e | Inr zs \<Rightarrow> Inr (y # zs)))"

text \<open>
  The loop of \<open>remove_phone\<close> over the items still to visit; at the first item equal to
  \<open>phone_obj\<close> it calls \<open>self.phones.remove(obj)\<close> and stops.
\<close>

fun remove_phone_loop ::
  "pystr \<Rightarrow> pystr list \<Rightarrow> record_obj \<Rightarrow> (py_error + unit) \<times> record_obj" where
  "remove_phone_loop phone_obj [] r = (Inr (), r)"
| "remove_phone_loop phone_obj (obj # rest) r =
     (if obj = phone_obj then
        (case list_remove obj (phones r) of
           Inl e \<Rightarrow> (Inl e, r)
         | Inr ps \<Rightarrow> (Inr (), r\<lparr>phones := ps\<rparr>))
      else remove_phone_loop phone_obj rest r)"

definition remove_phone :: "pystr \<Rightarrow> record_obj \<Rightarrow> (py_error + unit) \<times> record_obj" where
  "remove_phone phone_number r =
     (case Phone phone_number of
        Inl e \<Rightarrow> (Inl e, r)
      | Inr phone_obj \<Rightarrow> remove_phone_loop phone_obj (phones r) r)"

definition edit_phone ::
  "pystr \<Rightarrow> pystr \<Rightarrow> record_obj \<Rightarrow> (py_error + unit) \<times> record_obj" where
  "edit_phone old_number new_number r =
     (case remove_phone old_number r of
        (Inl e, r') \<Rightarrow> (Inl e, r')
      | (Inr u, r') \<Rightarrow> add_phone new_number r')"

fun find_phone_loop :: "pystr \<Rightarrow> pystr list \<Rightarrow> py_error + pystr" where
  "find_phone_loop phone [] = Inl (ValueError ''Phone number not found'')"
| "find_phone_loop phone (p # ps) = (if p = phone then Inr p else find_phone_loop phone ps)"

definition find_phone :: "pystr \<Rightarrow> record_obj \<Rightarrow> py_error + pystr" where
  "find_phone phone r = find_phone_loop phone (phones r)"

definition add_birthday :: "pystr \<Rightarrow> record_obj \<Rightarrow> (py_error + unit) \<times> record_obj" where
  "add_birthday b r =
     (case Birthday b of
        Inl e \<Rightarrow> (Inl e, r)
      | Inr d \<Rightarrow> (Inr (), r\<lparr>birthday := Some d\<rparr>))"

section \<open>The address book\<close>

text \<open>
  \<open>AddressBook\<close> is a \<open>UserDict\<close>: its \<open>data\<close> is a \<open>dict\<close>, which keeps its keys in the
  order of their first insertion. It is modelled by the list of its items in that
  order. Assigning to a key that is present replaces the value in place; assigning to a
  new key appends the item; \<open>del\<close> takes the item of the key out.
\<close>

type_synonym AddressBook = "(pystr \<times> record_obj) list"

fun dict_get :: "('k \<times> 'v) list \<Rightarrow> 'k \<Rightarrow> 'v option" where
  "dict_get [] k = None"
| "dict_get ((k', v) # kvs) k = (if k' = k then Some v else dict_get kvs k)"

fun dict_set :: "'k \<Rightarrow> 'v \<Rightarrow> ('k \<times> 'v) list \<Rightarrow> ('k \<times> 'v) list" where
  "dict_set k v [] = [(k, v)]"
| "dict_set k v ((k', v') # kvs) =
     (if k' = k then (k, v) # kvs else (k', v') # dict_set k v kvs)"

fun dict_del :: "'k \<Rightarrow> ('k \<times> 'v) list \<Rightarrow> ('k \<times> 'v) list" where
  "dict_del k [] = []"
| "dict_del k ((k', v') # kvs) = (if k' = k then kvs else (k', v') # dict_del k kvs)"

definition add_record :: "record_obj \<Rightarrow> AddressBook \<Rightarrow> AddressBook" where
  "add_record record_item book = dict_set (name record_item) record_item book"

definition find :: "pystr \<Rightarrow> AddressBook \<Rightarrow> py_error + record_obj" where
  "find key book =
     (case dict_get book key of
        Some r \<Rightarrow> Inr r
      | None \<Rightarrow> Inl (KeyError ''Record not found''))"

definition delete_record :: "pystr \<Rightarrow> AddressBook \<Rightarrow> pystr \<times> AddressBook" where
  "delete_record n book =
     (if dict_get book n \<noteq> None
      then (ascii ''Contact '' @ n @ ascii '' deleted'', dict_del n book)
      else (ascii ''Contact '' @ n @ ascii '' not found'', book))"

text \<open>
  \<open>get_upcoming_birthdays\<close>, with the date that \<open>datetime.today().date()\<close> returns as the
  argument \<open>today\<close>. The loop runs over \<open>self.data.values()\<close> and appends to
  \<open>upcoming_birthdays\<close>; an exception ends the call. In the chained comparison
  \<open>today <= next_birthday <= today + timedelta(days=7)\<close> the sum is computed only when
  the first comparison holds.
\<close>

fun upcoming_loop ::
  "bool \<Rightarrow> date \<Rightarrow> record_obj list \<Rightarrow> (pystr \<times> pystr) list \<Rightarrow>
   py_error + (pystr \<times> pystr) list" where
  "upcoming_loop pad today [] upcoming_birthdays = Inr upcoming_birthdays"
| "upcoming_loop pad today (r # rs) upcoming_birthdays =
     (case birthday r of
        None \<Rightarrow> upcoming_loop pad today rs upcoming_birthdays
      | Some b \<Rightarrow>
          (case replace_year b (year today) of
             Inl e \<Rightarrow> Inl e
           | Inr next_birthday \<Rightarrow>
               if date_le today next_birthday then
                 (case add_days today 7 of
                    Inl e \<Rightarrow> Inl e
                  | Inr limit \<Rightarrow>
                      if date_le next_birthday limit then
                        upcoming_loop pad today rs
                          (upcoming_birthdays @
                             [(name r, strftime_dmY pad next_birthday)])
                      else upcoming_loop pad today rs upcoming_birthdays)
               else upcoming_loop pad today rs upcoming_birthdays))"

definition get_upcoming_birthdays ::
  "bool \<Rightarrow> date \<Rightarrow> AddressBook \<Rightarrow> py_error + (pystr \<times> pystr) list" where
  "get_upcoming_birthdays pad today book = upcoming_loop pad today (map snd book) []"

section \<open>Reading the specification\<close>

text \<open>
  The candidate date of a birthday: its month and day in the year of \<open>today\<close>. It is
  a calendar date when \<open>valid_date\<close> holds, which fails only for 29 February in a year
  that is not a leap year.
\<close>

definition candidate :: "date \<Rightarrow> date \<Rightarrow> date" where
  "candidate today b = \<lparr>year = year today, month = month b, day = day b\<rparr>"

definition valid_date :: "date \<Rightarrow> bool" where
  "valid_date d =
     (1 \<le> year d \<and> year d \<le> 9999 \<and> 1 \<le> month d \<and> month d \<le> 12 \<and>
      1 \<le> day d \<and> day d \<le> days_in_month (year d) (month d))"

text \<open>
  The answer the specification describes: in the order of the book, the name and the
  written candidate date of every record with a birthday whose candidate date lies
  between \<open>today\<close> and \<open>limit\<close>, both included.
\<close>

definition upcoming_spec ::
  "bool \<Rightarrow> date \<Rightarrow> date \<Rightarrow> AddressBook \<Rightarrow> (pystr \<times> pystr) list" where
  "upcoming_spec pad today limit book =
     concat (map (\<lambda>(k, r).
       case birthday r of
         None \<Rightarrow> []
       | Some b \<Rightarrow>
           if date_le today (candidate today b) \<and> date_le (candidate today b) limit
           then [(name r, strftime_dmY pad (candidate today b))]
           else []) book)"

text \<open>
  The states of a book reachable by the core operations. \<open>On_record k c\<close> is a call of a
  record method on the object that \<open>find(k)\<close> returns: the book holds that same object,
  so the record stored under \<open>k\<close> is left as the call leaves it, whether it raised or
  not. Nothing happens when \<open>find\<close> raises.
\<close>

datatype record_call =
  Add_phone pystr | Remove_phone pystr | Edit_phone pystr pystr | Add_birthday pystr

fun call_record :: "record_call \<Rightarrow> record_obj \<Rightarrow> record_obj" where
  "call_record (Add_phone p) r = snd (add_phone p r)"
| "call_record (Remove_phone p) r = snd (remove_phone p r)"
| "call_record (Edit_phone p q) r = snd (edit_phone p q r)"
| "call_record (Add_birthday b) r = snd (add_birthday b r)"

datatype book_call =
  Add_record record_obj | Delete_record pystr | On_record pystr record_call

fun call_book :: "AddressBook \<Rightarrow> book_call \<Rightarrow> AddressBook" where
  "call_book book (Add_record r) = add_record r book"
| "call_book book (Delete_record n) = snd (delete_record n book)"
| "call_book book (On_record k c) =
     (case find k book of
        Inl e \<Rightarrow> book
      | Inr r \<Rightarrow> dict_set k (call_record c r) book)"

definition run_calls :: "book_call list \<Rightarrow> AddressBook" where
  "run_calls cs = foldl call_book [] cs"

text \<open>
  How an accepted birthday string is written: \<open>number_text t n\<close> says that \<open>t\<close> is a
  non-empty run of decimal digits with the value \<open>n\<close>. The day is written with one or
  two digits or with a blank and a digit, the month with one or two digits, the year
  with four.
\<close>

definition number_text :: "pystr \<Rightarrow> nat \<Rightarrow> bool" where
  "number_text t n = (t \<noteq> [] \<and> digits_value 0 t = Some n)"

definition day_text :: "pystr \<Rightarrow> nat \<Rightarrow> bool" where
  "day_text t n =
     ((length t \<le> 2 \<and> number_text t n) \<or>
      (length t = 2 \<and> hd t = 32 \<and> number_text (tl t) n))"

definition month_text :: "pystr \<Rightarrow> nat \<Rightarrow> bool" where
  "month_text t n = (length t \<le> 2 \<and> number_text t n)"

definition year_text :: "pystr \<Rightarrow> nat \<Rightarrow> bool" where
  "year_text t n = (length t = 4 \<and> number_text t n)"

text \<open>The invariant of the book: every record is stored under its own name, once.\<close>

definition keyed_by_name :: "AddressBook \<Rightarrow> bool" where
  "keyed_by_name book = ((\<forall>(k, r) \<in> set book. name r = k) \<and> distinct (map fst book))"

section \<open>Facts about digits\<close>

lemma ascii_simps:
  "ascii [] = []" "ascii (c # cs) = of_char c # ascii cs"
  by (simp_all add: ascii_def)

lemma decimal_value_ascii:
  "c < 128 \<Longrightarrow> decimal_value c = (if 48 \<le> c \<and> c \<le> 57 then Some (c - 48) else None)"
  by (simp add: decimal_value_def nd_zeros_def)

lemma re_digit_ascii: "c < 128 \<Longrightarrow> re_digit c = ascii_digit c"
  by (simp add: re_digit_def ascii_digit_def decimal_value_ascii)

lemma ascii_digit_re_digit: "ascii_digit c \<Longrightarrow> re_digit c"
  by (simp add: re_digit_def ascii_digit_def decimal_value_ascii)

lemma line_feed_no_digit [simp]: "\<not> re_digit 10"
  by (simp add: re_digit_ascii ascii_digit_def)

lemma re_match_digits_no_line_feed:
  assumes "s = [] \<or> last s \<noteq> 10"
  shows "re_match_digits s = (s \<noteq> [] \<and> list_all re_digit s)"
proof (cases "dropWhile re_digit s = []")
  case True
  then have all: "list_all re_digit s"
    by (simp add: list_all_iff)
  then have tw: "takeWhile re_digit s = s"
    by (simp add: list_all_iff)
  show ?thesis
    unfolding re_match_digits_def Let_def tw True using all by simp
next
  case False
  then have "\<not> list_all re_digit s"
    by (auto simp: list_all_iff)
  moreover have "dropWhile re_digit s \<noteq> [10]"
  proof
    assume eq: "dropWhile re_digit s = [10]"
    have "s = takeWhile re_digit s @ dropWhile re_digit s"
      by simp
    with eq have "s = takeWhile re_digit s @ [10]"
      by simp
    then have "s \<noteq> [] \<and> last s = 10"
      by (metis last_snoc snoc_eq_iff_butlast)
    with assms show False by simp
  qed
  ultimately show ?thesis
    using False by (simp add: re_match_digits_def)
qed

section \<open>Phone construction\<close>

text \<open>
  C3 (counterexample). The ten-character string \<open>123456789\n\<close> ends in a line feed,
  which is not a digit, and yet \<open>Phone\<close> accepts it: \<open>$\<close> matches before a final
  line feed.
\<close>

theorem Phone_line_feed_counterexample:
  "Phone (ascii ''123456789'' @ [10]) = Inr (ascii ''123456789'' @ [10])
   \<and> length (ascii ''123456789'' @ [10]) = 10
   \<and> \<not> list_all ascii_digit (ascii ''123456789'' @ [10])"
  by (simp add: Phone_def validate_number_def re_match_digits_def re_digit_ascii
      ascii_digit_def ascii_simps)

text \<open>
  C3 (amended). For every string that does not end in a line feed, \<open>Phone\<close> succeeds
  exactly when the string has ten characters and each of them is a decimal digit in the
  sense of \<open>\d\<close>, and fails with the \<open>ValueError\<close> "Invalid phone number" otherwise;
  when all its characters are ASCII, the digits are exactly the ASCII digits.
\<close>

theorem Phone_succeeds_iff:
  assumes "s = [] \<or> last s \<noteq> 10"
  shows "Phone s = (if length s = 10 \<and> list_all re_digit s then Inr s
                    else Inl (ValueError ''Invalid phone number''))
    \<and> (list_all (\<lambda>c. c < 128) s \<longrightarrow>
         (Phone s = Inr s) = (length s = 10 \<and> list_all ascii_digit s))"
proof -
  have m: "re_match_digits s = (s \<noteq> [] \<and> list_all re_digit s)"
    using assms by (rule re_match_digits_no_line_feed)
  have first: "Phone s = (if length s = 10 \<and> list_all re_digit s then Inr s
                    else Inl (ValueError ''Invalid phone number''))"
    by (auto simp: Phone_def validate_number_def m)
  have "list_all re_digit s = list_all ascii_digit s" if "list_all (\<lambda>c. c < 128) s"
    using that by (induction s) (simp_all add: re_digit_ascii)
  with first show ?thesis
    by simp
qed

theorem Phone_succeeds_iff_witness:
  "Phone (ascii ''0991234567'') = Inr (ascii ''0991234567'')
   \<and> Phone (ascii ''099123456'') = Inl (ValueError ''Invalid phone number'')
   \<and> Phone (ascii ''099123456x'') = Inl (ValueError ''Invalid phone number'')"
  using Phone_succeeds_iff [of "ascii ''0991234567''"]
    Phone_succeeds_iff [of "ascii ''099123456''"]
    Phone_succeeds_iff [of "ascii ''099123456x''"]
  by (simp add: re_digit_ascii ascii_digit_def ascii_simps)

section \<open>Removing and editing phones\<close>

lemma list_remove_remove1: "x \<in> set xs \<Longrightarrow> list_remove x xs = Inr (remove1 x xs)"
  by (induction xs) auto

lemma remove_phone_loop_eq:
  "set rest \<subseteq> set (phones r) \<Longrightarrow>
   remove_phone_loop p rest r =
     (if p \<in> set rest then (Inr (), r\<lparr>phones := remove1 p (phones r)\<rparr>) else (Inr (), r))"
  by (induction rest) (auto simp: list_remove_remove1)

lemma remove_phone_valid:
  "validate_number p \<Longrightarrow> remove_phone p r = (Inr (), r\<lparr>phones := remove1 p (phones r)\<rparr>)"
  by (simp add: remove_phone_def Phone_def remove_phone_loop_eq remove1_idem)




lemma add_phone_valid:
  "validate_number p \<Longrightarrow> add_phone p r = (Inr (), r\<lparr>phones := phones r @ [p]\<rparr>)"
  by (simp add: add_phone_def Phone_def)



lemma find_phone_loop_eq:
  "find_phone_loop p ps = (if p \<in> set ps then Inr p else Inl (ValueError ''Phone number not found''))"
  by (induction ps) auto

lemma count_one_remove1: "count_list xs x = 1 \<Longrightarrow> x \<notin> set (remove1 x xs)"
  by (induction xs) (auto simp: count_list_0_iff split: if_splits)

text \<open>
  C6 (amended). For a record that holds the valid phone \<open>old\<close> exactly once and a valid
  \<open>new\<close> different from \<open>old\<close>: \<open>edit_phone\<close> returns normally, after which
  \<open>find_phone new\<close> returns the phone and \<open>find_phone old\<close> raises the \<open>ValueError\<close>
  "Phone number not found".
\<close>

theorem edit_phone_then_find:
  assumes "validate_number old" and "validate_number new"
    and "count_list (phones r) old = 1" and "new \<noteq> old"
  shows "fst (edit_phone old new r) = Inr ()
    \<and> find_phone new (snd (edit_phone old new r)) = Inr new
    \<and> find_phone old (snd (edit_phone old new r)) = Inl (ValueError ''Phone number not found'')"
  using assms
  by (simp add: edit_phone_def remove_phone_valid add_phone_valid find_phone_def
      find_phone_loop_eq count_one_remove1)

lemma valid_0991234567: "validate_number (ascii ''0991234567'')"
  by (simp add: validate_number_def re_match_digits_def re_digit_ascii ascii_digit_def
      ascii_simps)

lemma valid_0501112233: "validate_number (ascii ''0501112233'')"
  by (simp add: validate_number_def re_match_digits_def re_digit_ascii ascii_digit_def
      ascii_simps)


section \<open>The phone operations on concrete records\<close>



text \<open>
  C6 (counterexample). A record may hold a number twice (\<open>add_phone\<close> does not look for
  duplicates). Editing that number removes only its first entry, so \<open>find_phone\<close> still
  finds the old number afterwards.
\<close>

theorem edit_phone_duplicate_counterexample:
  "find_phone (ascii ''0991234567'')
     (snd (edit_phone (ascii ''0991234567'') (ascii ''0501112233'')
        \<lparr>name = ascii ''Mia'', phones = [ascii ''0991234567'', ascii ''0991234567''],
         birthday = None\<rparr>))
   = Inr (ascii ''0991234567'')"
  by (simp add: edit_phone_def remove_phone_valid add_phone_valid valid_0991234567
      valid_0501112233 find_phone_def)

text \<open>C6 (amended) at a record holding the old number once.\<close>

theorem edit_phone_then_find_witness:
  "find_phone (ascii ''0501112233'')
     (snd (edit_phone (ascii ''0991234567'') (ascii ''0501112233'')
        \<lparr>name = ascii ''Mia'', phones = [ascii ''0991234567''], birthday = None\<rparr>))
   = Inr (ascii ''0501112233'')
   \<and> find_phone (ascii ''0991234567'')
     (snd (edit_phone (ascii ''0991234567'') (ascii ''0501112233'')
        \<lparr>name = ascii ''Mia'', phones = [ascii ''0991234567''], birthday = None\<rparr>))
   = Inl (ValueError ''Phone number not found'')"
  using edit_phone_then_find [of "ascii ''0991234567''" "ascii ''0501112233''"
      "\<lparr>name = ascii ''Mia'', phones = [ascii ''0991234567''], birthday = None\<rparr>"]
    valid_0991234567 valid_0501112233
  by (simp add: ascii_simps)

section \<open>The dictionary of the book\<close>

lemma dict_get_dict_set: "dict_get (dict_set k v b) k' = (if k' = k then Some v else dict_get b k')"
  by (induction k v b rule: dict_set.induct) auto

lemma dict_get_None_iff: "dict_get b k = None \<longleftrightarrow> k \<notin> set (map fst b)"
  by (induction b k rule: dict_get.induct) auto

lemma dict_get_dict_del_other: "k' \<noteq> k \<Longrightarrow> dict_get (dict_del k b) k' = dict_get b k'"
  by (induction k b rule: dict_del.induct) auto

lemma dict_get_dict_del_same: "distinct (map fst b) \<Longrightarrow> dict_get (dict_del k b) k = None"
  by (induction k b rule: dict_del.induct) (auto simp: dict_get_None_iff)

lemma keys_dict_del: "map fst (dict_del k b) = remove1 k (map fst b)"
  by (induction k b rule: dict_del.induct) auto

lemma set_dict_del: "set (dict_del k b) \<subseteq> set b"
  by (induction k b rule: dict_del.induct) auto

lemma distinct_dict_del: "distinct (map fst b) \<Longrightarrow> distinct (map fst (dict_del k b))"
  by (simp add: keys_dict_del)

lemma keys_dict_set:
  "map fst (dict_set k v b) = (if k \<in> set (map fst b) then map fst b else map fst b @ [k])"
  by (induction k v b rule: dict_set.induct) auto

lemma distinct_dict_set: "distinct (map fst b) \<Longrightarrow> distinct (map fst (dict_set k v b))"
  by (simp add: keys_dict_set)

lemma set_dict_set: "set (dict_set k v b) \<subseteq> insert (k, v) (set b)"
  by (induction k v b rule: dict_set.induct) auto

text \<open>
  C8. In a book (a dictionary: no key twice), \<open>delete_record\<close> of a name that is
  present returns the message "Contact ... deleted" and takes the entry out: \<open>find\<close> of
  that name then raises \<open>KeyError\<close>, and every other name is found as before. For a name
  that is absent it returns the message "Contact ... not found", raises nothing, and
  leaves the book as it was.
\<close>

theorem delete_record_reports:
  assumes "distinct (map fst book)"
  shows "(dict_get book n \<noteq> None \<longrightarrow>
            delete_record n book = (ascii ''Contact '' @ n @ ascii '' deleted'', dict_del n book)
            \<and> find n (snd (delete_record n book)) = Inl (KeyError ''Record not found'')
            \<and> (\<forall>k. k \<noteq> n \<longrightarrow> find k (snd (delete_record n book)) = find k book))
       \<and> (dict_get book n = None \<longrightarrow>
            delete_record n book = (ascii ''Contact '' @ n @ ascii '' not found'', book))"
  using assms
  by (simp add: delete_record_def find_def dict_get_dict_del_same dict_get_dict_del_other)

text \<open>C8 at a book of two records, for a present and for an absent name.\<close>

theorem delete_record_reports_witness:
  "delete_record (ascii ''Mia'')
     [(ascii ''Mia'', \<lparr>name = ascii ''Mia'', phones = [], birthday = None\<rparr>),
      (ascii ''Bob'', \<lparr>name = ascii ''Bob'', phones = [], birthday = None\<rparr>)]
   = (ascii ''Contact Mia deleted'',
      [(ascii ''Bob'', \<lparr>name = ascii ''Bob'', phones = [], birthday = None\<rparr>)])
   \<and> delete_record (ascii ''Zed'')
     [(ascii ''Mia'', \<lparr>name = ascii ''Mia'', phones = [], birthday = None\<rparr>),
      (ascii ''Bob'', \<lparr>name = ascii ''Bob'', phones = [], birthday = None\<rparr>)]
   = (ascii ''Contact Zed not found'',
      [(ascii ''Mia'', \<lparr>name = ascii ''Mia'', phones = [], birthday = None\<rparr>),
      (ascii ''Bob'', \<lparr>name = ascii ''Bob'', phones = [], birthday = None\<rparr>)])"
  using delete_record_reports [of
      "[(ascii ''Mia'', \<lparr>name = ascii ''Mia'', phones = [], birthday = None\<rparr>),
      (ascii ''Bob'', \<lparr>name = ascii ''Bob'', phones = [], birthday = None\<rparr>)]" "ascii ''Mia''"]
    delete_record_reports [of
      "[(ascii ''Mia'', \<lparr>name = ascii ''Mia'', phones = [], birthday = None\<rparr>),
      (ascii ''Bob'', \<lparr>name = ascii ''Bob'', phones = [], birthday = None\<rparr>)]" "ascii ''Zed''"]
  by (simp add: ascii_simps)


section \<open>Records keep their names\<close>

lemma name_remove_phone_loop: "name (snd (remove_phone_loop p rest r)) = name r"
  by (induction rest) (auto split: sum.splits)

lemma name_add_phone: "name (snd (add_phone p r)) = name r"
  by (simp add: add_phone_def split: sum.splits)

lemma name_remove_phone: "name (snd (remove_phone p r)) = name r"
  by (simp add: remove_phone_def name_remove_phone_loop split: sum.splits)

lemma name_edit_phone: "name (snd (edit_phone p q r)) = name r"
proof (cases "remove_phone p r")
  case (Pair res r')
  then have "name r' = name r"
    using name_remove_phone [of p r] by simp
  with Pair show ?thesis
    by (cases res) (simp_all add: edit_phone_def name_add_phone)
qed

lemma name_add_birthday: "name (snd (add_birthday b r)) = name r"
  by (simp add: add_birthday_def split: sum.splits)

lemma name_call_record: "name (call_record c r) = name r"
  by (cases c)
    (simp_all add: name_add_phone name_remove_phone name_edit_phone name_add_birthday)

lemma dict_get_Some_mem: "dict_get b k = Some v \<Longrightarrow> (k, v) \<in> set b"
  by (induction b k rule: dict_get.induct) (auto split: if_splits)

lemma keyed_dict_set:
  "keyed_by_name book \<Longrightarrow> name r = k \<Longrightarrow> keyed_by_name (dict_set k r book)"
  using set_dict_set [of k r book]
  by (auto simp: keyed_by_name_def distinct_dict_set)

lemma keyed_dict_del: "keyed_by_name book \<Longrightarrow> keyed_by_name (dict_del k book)"
  using set_dict_del [of k book]
  by (auto simp: keyed_by_name_def distinct_dict_del)

lemma keyed_call_book: "keyed_by_name book \<Longrightarrow> keyed_by_name (call_book book c)"
proof (cases c)
  case (Add_record r)
  assume "keyed_by_name book"
  then show ?thesis
    by (simp add: Add_record add_record_def keyed_dict_set)
next
  case (Delete_record n)
  assume "keyed_by_name book"
  then show ?thesis
    by (simp add: Delete_record delete_record_def keyed_dict_del)
next
  case (On_record k rc)
  assume inv: "keyed_by_name book"
  show ?thesis
  proof (cases "dict_get book k")
    case None
    with inv show ?thesis by (simp add: On_record find_def)
  next
    case (Some r)
    then have "(k, r) \<in> set book" by (rule dict_get_Some_mem)
    with inv have "name r = k" by (auto simp: keyed_by_name_def)
    then have "name (call_record rc r) = k" by (simp add: name_call_record)
    with inv Some show ?thesis by (simp add: On_record find_def keyed_dict_set)
  qed
qed

lemma keyed_run_calls: "keyed_by_name (run_calls cs)"
  by (induction cs rule: rev_induct) (simp_all add: run_calls_def keyed_by_name_def [of "[]"] keyed_call_book)

text \<open>
  C9. In every book reached from the empty one by \<open>add_record\<close>, \<open>delete_record\<close> and
  the record methods called on stored records, every record is stored under the key
  equal to its name, and no key occurs twice. \<open>add_record\<close> of a record whose name is
  already a key replaces that entry, so that \<open>find\<close> returns the new record; the other
  entries and the order of the keys stay, and a new name goes to the end.
\<close>

theorem name_is_key:
  "(\<forall>(k, r) \<in> set (run_calls cs). name r = k)
   \<and> distinct (map fst (run_calls cs))
   \<and> find (name r0) (add_record r0 (run_calls cs)) = Inr r0
   \<and> (\<forall>k. k \<noteq> name r0 \<longrightarrow> find k (add_record r0 (run_calls cs)) = find k (run_calls cs))
   \<and> map fst (add_record r0 (run_calls cs)) =
       (if name r0 \<in> set (map fst (run_calls cs)) then map fst (run_calls cs)
        else map fst (run_calls cs) @ [name r0])"
  using keyed_run_calls [of cs]
  by (simp add: keyed_by_name_def find_def add_record_def dict_get_dict_set keys_dict_set)


text \<open>
  C9 at a run of four calls: two records added, a phone added to the stored first one,
  and the second one replaced by a record of the same name.
\<close>

theorem name_is_key_witness:
  "run_calls
     [Add_record \<lparr>name = ascii ''Mia'', phones = [], birthday = None\<rparr>,
      Add_record \<lparr>name = ascii ''Bob'', phones = [], birthday = None\<rparr>,
      On_record (ascii ''Mia'') (Add_phone (ascii ''0991234567'')),
      Add_record \<lparr>name = ascii ''Bob'', phones = [ascii ''0501112233''], birthday = None\<rparr>]
   = [(ascii ''Mia'', \<lparr>name = ascii ''Mia'', phones = [ascii ''0991234567''], birthday = None\<rparr>),
      (ascii ''Bob'', \<lparr>name = ascii ''Bob'', phones = [ascii ''0501112233''], birthday = None\<rparr>)]
   \<and> list_all (\<lambda>(k, r). name r = k) (run_calls
     [Add_record \<lparr>name = ascii ''Mia'', phones = [], birthday = None\<rparr>,
      Add_record \<lparr>name = ascii ''Bob'', phones = [], birthday = None\<rparr>,
      On_record (ascii ''Mia'') (Add_phone (ascii ''0991234567'')),
      Add_record \<lparr>name = ascii ''Bob'', phones = [ascii ''0501112233''], birthday = None\<rparr>])"
proof -
  have ne: "ascii ''Mia'' \<noteq> ascii ''Bob''"
    by (simp add: ascii_simps)
  show ?thesis
    using name_is_key [of "[Add_record \<lparr>name = ascii ''Mia'', phones = [], birthday = None\<rparr>,
      Add_record \<lparr>name = ascii ''Bob'', phones = [], birthday = None\<rparr>,
      On_record (ascii ''Mia'') (Add_phone (ascii ''0991234567'')),
      Add_record \<lparr>name = ascii ''Bob'', phones = [ascii ''0501112233''], birthday = None\<rparr>]"
      "\<lparr>name = ascii ''Mia'', phones = [], birthday = None\<rparr>"] ne
    by (simp add: run_calls_def add_record_def find_def add_phone_valid valid_0991234567)
qed

section \<open>Failed construction leaves the record alone\<close>

lemma py_int_error: "py_int s = Inl e \<Longrightarrow> \<exists>m. e = ValueError m"
  by (auto simp: py_int_def Let_def split: if_splits option.splits)

lemma mk_date_error: "mk_date y m d = Inl e \<Longrightarrow> \<exists>msg. e = ValueError msg"
  by (auto simp: mk_date_def split: if_splits)

lemma strptime_error: "strptime_dmY s = Inl e \<Longrightarrow> \<exists>m. e = ValueError m"
  by (auto simp: strptime_dmY_def split: list.splits if_splits sum.splits prod.splits
      dest: py_int_error mk_date_error)

lemma Birthday_cases:
  "Birthday s = Inl (ValueError ''Invalid date format. Use DD.MM.YYYY'') \<or>
   (\<exists>d. Birthday s = Inr d \<and> strptime_dmY s = Inr d)"
proof (cases "strptime_dmY s")
  case (Inl e)
  then obtain m where "e = ValueError m" using strptime_error by blast
  with Inl show ?thesis by (simp add: Birthday_def)
next
  case (Inr d)
  then show ?thesis by (simp add: Birthday_def)
qed

section \<open>Evaluating dates and parses\<close>

lemmas date_eval = mk_date_def days_in_month_def is_leap_def DAYS_IN_MONTH_def
  replace_year_def date_le_def next_day_def

lemmas parse_eval = ascii_simps Birthday_def strptime_dmY_def format_regex_def re_d_def
  re_m_def re_Y_def re_dot_def in_range_def re_digit_ascii ascii_digit_def py_int_def
  decimal_value_ascii

lemma funpow_7: "(f ^^ 7) x = f (f (f (f (f (f (f x))))))"
  by (simp add: numeral_eq_Suc)



lemma Birthday_1_1_1990:
  "Birthday (ascii ''1.1.1990'') = Inr \<lparr>year = 1990, month = 1, day = 1\<rparr>"
  by (simp add: parse_eval date_eval)

lemma Birthday_29_02_2023: "Birthday (ascii ''29.02.2023'') = Inl (ValueError ''Invalid date format. Use DD.MM.YYYY'')"
  by (simp add: parse_eval date_eval)
lemma Birthday_29_02_2024: "Birthday (ascii ''29.02.2024'') = Inr \<lparr>year = 2024, month = 2, day = 29\<rparr>"
  by (simp add: parse_eval date_eval)
lemma Birthday_32_01_1990: "Birthday (ascii ''32.01.1990'') = Inl (ValueError ''Invalid date format. Use DD.MM.YYYY'')"
  by (simp add: parse_eval date_eval)
lemma Birthday_01_13_1990: "Birthday (ascii ''01.13.1990'') = Inl (ValueError ''Invalid date format. Use DD.MM.YYYY'')"
  by (simp add: parse_eval date_eval)
lemma strftime_01_01_1990: "strftime_dmY p \<lparr>year = 1990, month = 1, day = 1\<rparr> = ascii ''01.01.1990''"
  by (simp add: strftime_dmY_def zfill_def decimal.simps ascii_simps)

text \<open>
  C1 (counterexample). With a birthday on 29 February and \<open>today\<close> in a year that is
  not a leap year, \<open>replace\<close> raises \<open>ValueError\<close>: the call returns no list at all.
\<close>

theorem upcoming_birthdays_leap_day_counterexample:
  "get_upcoming_birthdays False \<lparr>year = 2023, month = 2, day = 25\<rparr>
     [(ascii ''Mia'', \<lparr>name = ascii ''Mia'', phones = [],
        birthday = Some \<lparr>year = 2000, month = 2, day = 29\<rparr>\<rparr>)]
   = Inl (ValueError ''day is out of range for month'')"
  by (simp add: get_upcoming_birthdays_def date_eval)

lemma add_days_20_12_2023:
  "add_days \<lparr>year = 2023, month = 12, day = 20\<rparr> 7 = Inr \<lparr>year = 2023, month = 12, day = 27\<rparr>"
  by (simp add: add_days_def funpow_7 date_eval)

lemma add_days_28_12_2023:
  "add_days \<lparr>year = 2023, month = 12, day = 28\<rparr> 7 = Inr \<lparr>year = 2024, month = 1, day = 4\<rparr>"
  by (simp add: add_days_def funpow_7 date_eval)

section \<open>The upcoming birthdays\<close>

lemma replace_year_candidate:
  "valid_date (candidate today b) \<Longrightarrow> replace_year b (year today) = Inr (candidate today b)"
  by (simp add: valid_date_def candidate_def replace_year_def mk_date_def)

lemma upcoming_loop_eq:
  assumes "\<forall>r \<in> set rs. \<forall>b. birthday r = Some b \<longrightarrow> valid_date (candidate today b)"
    and "add_days today 7 = Inr limit"
  shows "upcoming_loop pad today rs acc =
    Inr (acc @ concat (map (\<lambda>r.
       case birthday r of
         None \<Rightarrow> []
       | Some b \<Rightarrow>
           if date_le today (candidate today b) \<and> date_le (candidate today b) limit
           then [(name r, strftime_dmY pad (candidate today b))]
           else []) rs))"
  using assms
proof (induction rs arbitrary: acc)
  case Nil
  then show ?case by simp
next
  case (Cons r rs)
  have tail: "upcoming_loop pad today rs acc' =
    Inr (acc' @ concat (map (\<lambda>r.
       case birthday r of
         None \<Rightarrow> []
       | Some b \<Rightarrow>
           if date_le today (candidate today b) \<and> date_le (candidate today b) limit
           then [(name r, strftime_dmY pad (candidate today b))]
           else []) rs))" for acc'
    using Cons.prems by (intro Cons.IH) simp_all
  show ?case
  proof (cases "birthday r")
    case None
    then show ?thesis by (simp add: tail)
  next
    case (Some b)
    with Cons.prems have "valid_date (candidate today b)" by simp
    then have "replace_year b (year today) = Inr (candidate today b)"
      by (rule replace_year_candidate)
    then show ?thesis
      by (simp add: Some tail Cons.prems(2))
  qed
qed

text \<open>
  C1 (amended). For every book and every date \<open>today\<close> such that the candidate date of
  each set birthday is a calendar date (no birthday on 29 February unless the year of
  \<open>today\<close> is a leap year) and \<open>today + 7 days\<close> is a date (\<open>today\<close> is not after
  24.12.9999): \<open>get_upcoming_birthdays\<close> returns, in the order of the book, exactly the
  pairs of the name and the candidate date of the records that have a birthday and
  whose candidate date lies in the window from \<open>today\<close> to \<open>today + 7 days\<close>, both
  included. The candidate date is in the year of \<open>today\<close>, so a record whose candidate
  date is before \<open>today\<close> is left out. In each pair the candidate date is the text that
  \<open>strftime('%d.%m.%Y')\<close> gives for it, with either kind of C library: a year before
  1000 has fewer than four digits when the library does not pad \<open>%Y\<close>.
\<close>

theorem upcoming_birthdays_window:
  assumes "\<forall>(k, r) \<in> set book. \<forall>b. birthday r = Some b \<longrightarrow> valid_date (candidate today b)"
    and "add_days today 7 = Inr limit"
  shows "get_upcoming_birthdays pad today book = Inr (upcoming_spec pad today limit book)"
proof -
  have "\<forall>r \<in> set (map snd book). \<forall>b. birthday r = Some b \<longrightarrow> valid_date (candidate today b)"
    using assms(1) by auto
  then have "upcoming_loop pad today (map snd book) [] =
    Inr ([] @ concat (map (\<lambda>r.
       case birthday r of
         None \<Rightarrow> []
       | Some b \<Rightarrow>
           if date_le today (candidate today b) \<and> date_le (candidate today b) limit
           then [(name r, strftime_dmY pad (candidate today b))]
           else []) (map snd book)))"
    using assms(2) by (rule upcoming_loop_eq)
  then show ?thesis
    by (simp add: get_upcoming_birthdays_def upcoming_spec_def comp_def case_prod_unfold)
qed

text \<open>
  C1 (amended) at a book of three records on 20.12.2023: one without birthday, one with
  a birthday five days ahead, one whose birthday this year is long past.
\<close>

theorem upcoming_birthdays_window_witness:
  "get_upcoming_birthdays False \<lparr>year = 2023, month = 12, day = 20\<rparr>
     [(ascii ''Bob'', \<lparr>name = ascii ''Bob'', phones = [], birthday = None\<rparr>),
      (ascii ''Mia'', \<lparr>name = ascii ''Mia'', phones = [],
        birthday = Some \<lparr>year = 1990, month = 12, day = 25\<rparr>\<rparr>),
      (ascii ''Ann'', \<lparr>name = ascii ''Ann'', phones = [],
        birthday = Some \<lparr>year = 1985, month = 1, day = 1\<rparr>\<rparr>)]
   = Inr [(ascii ''Mia'', ascii ''25.12.2023'')]"
proof -
  let ?today = "\<lparr>year = 2023, month = 12, day = 20\<rparr>"
  let ?book = "[(ascii ''Bob'', \<lparr>name = ascii ''Bob'', phones = [], birthday = None\<rparr>),
      (ascii ''Mia'', \<lparr>name = ascii ''Mia'', phones = [],
        birthday = Some \<lparr>year = 1990, month = 12, day = 25\<rparr>\<rparr>),
      (ascii ''Ann'', \<lparr>name = ascii ''Ann'', phones = [],
        birthday = Some \<lparr>year = 1985, month = 1, day = 1\<rparr>\<rparr>)]"
  have 1: "\<forall>(k, r) \<in> set ?book. \<forall>b. birthday r = Some b \<longrightarrow> valid_date (candidate ?today b)"
    by (simp add: valid_date_def candidate_def date_eval)
  have 2: "add_days ?today 7 = Inr \<lparr>year = 2023, month = 12, day = 27\<rparr>"
    by (rule add_days_20_12_2023)
  from upcoming_birthdays_window [OF 1 2, of False] show ?thesis
    by (simp add: upcoming_spec_def candidate_def date_le_def strftime_dmY_def zfill_def
        decimal.simps ascii_simps)
qed

lemma no_roll_over_into_next_year:
  "get_upcoming_birthdays False \<lparr>year = 2023, month = 12, day = 28\<rparr>
     [(ascii ''Mia'', \<lparr>name = ascii ''Mia'', phones = [],
        birthday = Some \<lparr>year = 1990, month = 1, day = 1\<rparr>\<rparr>)]
   = Inr []"
  by (simp add: get_upcoming_birthdays_def date_eval)

section \<open>What the format expression matches\<close>

lemma one_sound: "(g, r) \<in> set (one p s) \<Longrightarrow> \<exists>a. g = [a] \<and> p a \<and> s = a # r"
  by (cases s) (auto split: if_splits)

lemma two_sound:
  "(g, r) \<in> set (two p q s) \<Longrightarrow> \<exists>a b. g = [a, b] \<and> p a \<and> q b \<and> s = a # b # r"
  by (induction p q s rule: two.induct) (auto split: if_splits)

lemma re_dot_sound: "(g, r) \<in> set (re_dot s) \<Longrightarrow> s = 46 # r"
  by (auto simp: re_dot_def in_range_def dest: one_sound)

lemma re_d_sound:
  assumes "(g, r) \<in> set (re_d s)"
  shows "s = g @ r \<and>
    ((\<exists>a. g = [a] \<and> in_range 49 57 a) \<or>
     (\<exists>b. g = [32, b] \<and> in_range 49 57 b) \<or>
     (\<exists>a b. g = [a, b] \<and> in_range 48 51 a \<and> re_digit b))"
proof -
  from assms consider
      "(g, r) \<in> set (two (in_range 51 51) (in_range 48 49) s)"
    | "(g, r) \<in> set (two (in_range 49 50) re_digit s)"
    | "(g, r) \<in> set (two (in_range 48 48) (in_range 49 57) s)"
    | "(g, r) \<in> set (one (in_range 49 57) s)"
    | "(g, r) \<in> set (two (in_range 32 32) (in_range 49 57) s)"
    by (auto simp: re_d_def)
  then show ?thesis
  proof cases
    case 1
    then show ?thesis
      by (auto dest!: two_sound simp: in_range_def intro!: ascii_digit_re_digit [unfolded ascii_digit_def])
  next
    case 2
    then show ?thesis by (auto dest!: two_sound simp: in_range_def)
  next
    case 3
    then show ?thesis
      by (auto dest!: two_sound simp: in_range_def intro!: ascii_digit_re_digit [unfolded ascii_digit_def])
  next
    case 4
    then show ?thesis by (auto dest!: one_sound)
  next
    case 5
    then show ?thesis by (auto dest!: two_sound simp: in_range_def)
  qed
qed

lemma re_m_sound:
  assumes "(g, r) \<in> set (re_m s)"
  shows "s = g @ r \<and>
    ((\<exists>a. g = [a] \<and> in_range 49 57 a) \<or>
     (\<exists>a b. g = [a, b] \<and> in_range 48 49 a \<and> in_range 48 57 b))"
proof -
  from assms consider
      "(g, r) \<in> set (two (in_range 49 49) (in_range 48 50) s)"
    | "(g, r) \<in> set (two (in_range 48 48) (in_range 49 57) s)"
    | "(g, r) \<in> set (one (in_range 49 57) s)"
    by (auto simp: re_m_def)
  then show ?thesis
  proof cases
    case 1
    then show ?thesis by (auto dest!: two_sound simp: in_range_def)
  next
    case 2
    then show ?thesis by (auto dest!: two_sound simp: in_range_def)
  next
    case 3
    then show ?thesis by (auto dest!: one_sound)
  qed
qed

lemma re_Y_sound:
  assumes "(g, r) \<in> set (re_Y s)"
  shows "s = g @ r \<and> (\<exists>a b c d. g = [a, b, c, d] \<and> re_digit a \<and> re_digit b \<and> re_digit c \<and> re_digit d)"
proof -
  from assms obtain ab r1 cd where
    1: "(ab, r1) \<in> set (two re_digit re_digit s)" and
    2: "(cd, r) \<in> set (two re_digit re_digit r1)" and g: "g = ab @ cd"
    by (auto simp: re_Y_def)
  from two_sound [OF 1] two_sound [OF 2] g show ?thesis by auto
qed

lemma format_regex_sound:
  assumes "((d, m, y), r) \<in> set (format_regex s)"
  shows "s = d @ [46] @ m @ [46] @ y @ r \<and> (\<exists>r1. (d, r1) \<in> set (re_d (d @ r1)))
     \<and> (\<exists>r3. (m, r3) \<in> set (re_m (m @ r3))) \<and> (\<exists>r5. (y, r5) \<in> set (re_Y (y @ r5)))"
proof -
  from assms obtain r1 p r2 r3 q r4 where
    d: "(d, r1) \<in> set (re_d s)" and p: "(p, r2) \<in> set (re_dot r1)" and
    m: "(m, r3) \<in> set (re_m r2)" and q: "(q, r4) \<in> set (re_dot r3)" and
    y: "(y, r) \<in> set (re_Y r4)"
    by (auto simp: format_regex_def)
  have s: "s = d @ r1" using re_d_sound [OF d] by simp
  have r1: "r1 = 46 # r2" using p by (rule re_dot_sound)
  have r2: "r2 = m @ r3" using re_m_sound [OF m] by simp
  have r3: "r3 = 46 # r4" using q by (rule re_dot_sound)
  have r4: "r4 = y @ r" using re_Y_sound [OF y] by simp
  from d m y show ?thesis
    unfolding s r1 r2 r3 r4 by auto
qed

lemma strptime_InrD:
  assumes "strptime_dmY s = Inr b"
  shows "\<exists>d m y. ((d, m, y), []) \<in> set (format_regex s) \<and> py_int d = Inr (day b)
     \<and> py_int m = Inr (month b) \<and> py_int y = Inr (year b)
     \<and> mk_date (year b) (month b) (day b) = Inr b"
proof (cases "format_regex s")
  case Nil
  with assms show ?thesis by (simp add: strptime_dmY_def)
next
  case (Cons x xs)
  obtain d m y rest where x: "x = ((d, m, y), rest)" by (cases x) auto
  from assms Cons x have rest: "rest = []"
    by (simp add: strptime_dmY_def split: if_splits)
  from assms Cons x rest obtain dd mm yy where
    i: "py_int d = Inr dd" "py_int m = Inr mm" "py_int y = Inr yy" and
    mk: "mk_date yy mm dd = Inr b"
    by (auto simp: strptime_dmY_def split: sum.splits)
  from mk have "year b = yy \<and> month b = mm \<and> day b = dd"
    by (auto simp: mk_date_def split: if_splits)
  with i mk Cons x rest show ?thesis by auto
qed

lemma mk_date_valid: "mk_date y m d = Inr b \<Longrightarrow> valid_date b"
  by (auto simp: mk_date_def valid_date_def split: if_splits)

lemma py_int_digits:
  "t \<noteq> [] \<Longrightarrow> hd t \<noteq> 32 \<Longrightarrow> py_int t = Inr n \<Longrightarrow> number_text t n"
  by (cases t) (auto simp: py_int_def number_text_def split: option.splits)

lemma py_int_day:
  assumes "(g, r) \<in> set (re_d s)" and "py_int g = Inr n"
  shows "day_text g n"
proof -
  from re_d_sound [OF assms(1)] consider
      a where "g = [a]" "in_range 49 57 a"
    | b where "g = [32, b]" "in_range 49 57 b"
    | a b where "g = [a, b]" "in_range 48 51 a" "re_digit b"
    by blast
  then show ?thesis
  proof cases
    case 1
    with assms(2) have "number_text g n"
      by (intro py_int_digits) (auto simp: in_range_def)
    with 1 show ?thesis by (simp add: day_text_def)
  next
    case 2
    with assms(2) have "number_text [b] n"
      by (auto simp: py_int_def number_text_def in_range_def split: option.splits if_splits)
    with 2 show ?thesis by (simp add: day_text_def)
  next
    case 3
    with assms(2) have "number_text g n"
      by (intro py_int_digits) (auto simp: in_range_def)
    with 3 show ?thesis by (simp add: day_text_def)
  qed
qed

lemma py_int_month:
  assumes "(g, r) \<in> set (re_m s)" and "py_int g = Inr n"
  shows "month_text g n"
proof -
  from re_m_sound [OF assms(1)] have "g \<noteq> [] \<and> hd g \<noteq> 32 \<and> length g \<le> 2"
    by (auto simp: in_range_def)
  with assms(2) show ?thesis
    by (simp add: month_text_def py_int_digits)
qed

lemma py_int_year:
  assumes "(g, r) \<in> set (re_Y s)" and "py_int g = Inr n"
  shows "year_text g n"
proof -
  from re_Y_sound [OF assms(1)] have "g \<noteq> [] \<and> hd g \<noteq> 32 \<and> length g = 4"
    by (auto simp: re_digit_ascii ascii_digit_def)
  with assms(2) show ?thesis
    by (simp add: year_text_def py_int_digits)
qed

lemma Birthday_InrD:
  assumes "Birthday s = Inr b"
  shows "\<exists>ds ms ys. s = ds @ [46] @ ms @ [46] @ ys \<and> day_text ds (day b)
     \<and> month_text ms (month b) \<and> year_text ys (year b) \<and> valid_date b"
proof -
  from assms Birthday_cases [of s] have "strptime_dmY s = Inr b" by auto
  from strptime_InrD [OF this] obtain d m y where
    f: "((d, m, y), []) \<in> set (format_regex s)" and
    i: "py_int d = Inr (day b)" "py_int m = Inr (month b)" "py_int y = Inr (year b)" and
    mk: "mk_date (year b) (month b) (day b) = Inr b"
    by blast
  from format_regex_sound [OF f] obtain r1 r3 r5 where
    s: "s = d @ [46] @ m @ [46] @ y" and
    g: "(d, r1) \<in> set (re_d (d @ r1))" "(m, r3) \<in> set (re_m (m @ r3))"
       "(y, r5) \<in> set (re_Y (y @ r5))"
    by auto
  from g i have "day_text d (day b)" "month_text m (month b)" "year_text y (year b)"
    by (auto intro: py_int_day py_int_month py_int_year)
  with s mk_date_valid [OF mk] show ?thesis by blast
qed

text \<open>
  C4 (amended). \<open>Birthday\<close> either raises the \<open>ValueError\<close> "Invalid date format. Use
  DD.MM.YYYY", or the string is a day, a dot, a month, a dot and a year, where the day
  is written with one or two decimal digits or with a blank and a digit, the month with
  one or two digits and the year with four, and these three numbers are a calendar date
  (year 1..9999, month 1..12, day within the month, 29 February only in leap years),
  which is the date stored. So every string that is not of this form, or names no
  calendar date, is rejected: month 13, day 32, 31.04 and 29.02 outside leap years.
\<close>

theorem Birthday_accepts_only_dates:
  "Birthday s = Inl (ValueError ''Invalid date format. Use DD.MM.YYYY'') \<or>
   (\<exists>b ds ms ys. Birthday s = Inr b \<and> s = ds @ [46] @ ms @ [46] @ ys
      \<and> day_text ds (day b) \<and> month_text ms (month b) \<and> year_text ys (year b)
      \<and> valid_date b)"
  using Birthday_cases [of s] Birthday_InrD [of s] by blast
section \<open>Writing numbers\<close>

lemma decimal_small: "y < 10 \<Longrightarrow> decimal y = [48 + y]"
  by (simp add: decimal.simps)

lemma decimal_step: "y < 10 \<Longrightarrow> 0 < x \<Longrightarrow> decimal (10 * x + y) = decimal x @ [48 + y]"
  by (subst decimal.simps) simp

lemma length_decimal_pos: "0 < length (decimal n)"
  by (subst decimal.simps) simp

lemma zfill_decimal_step:
  assumes "y < 10" and "length (decimal x) \<le> k"
  shows "zfill (Suc k) (decimal (10 * x + y)) = zfill k (decimal x) @ [48 + y]"
proof (cases "x = 0")
  case True
  from assms(2) length_decimal_pos [of x] obtain k' where k: "k = Suc k'"
    by (cases k) auto
  show ?thesis
    using assms(1) by (simp add: True decimal_small zfill_def k replicate_append_same)
next
  case False
  with assms show ?thesis
    by (simp add: decimal_step zfill_def Suc_diff_le)
qed

lemma length_decimal_step:
  "y < 10 \<Longrightarrow> length (decimal (10 * x + y)) \<le> Suc (length (decimal x))"
  by (cases "x = 0") (simp_all add: decimal_small decimal_step)

lemma ascii_digit_val: "ascii_digit a \<Longrightarrow> a - 48 < 10 \<and> 48 + (a - 48) = a"
  by (auto simp: ascii_digit_def)

lemma one_digit: "ascii_digit a \<Longrightarrow> decimal (a - 48) = [a]"
  using ascii_digit_val [of a] by (simp add: decimal_small)

lemma two_digits:
  assumes "ascii_digit a" and "ascii_digit b"
  shows "zfill 2 (decimal (10 * (a - 48) + (b - 48))) = [a, b]"
proof -
  have "zfill (Suc 1) (decimal (10 * (a - 48) + (b - 48))) = zfill 1 (decimal (a - 48)) @ [48 + (b - 48)]"
    using assms ascii_digit_val [of b] by (intro zfill_decimal_step) (simp_all add: one_digit)
  with assms ascii_digit_val [of b] show ?thesis
    by (simp add: one_digit zfill_def numeral_2_eq_2)
qed

lemma four_digits:
  assumes "ascii_digit a" and "ascii_digit b" and "ascii_digit c" and "ascii_digit d"
  shows "zfill 4 (decimal (10 * (10 * (10 * (a - 48) + (b - 48)) + (c - 48)) + (d - 48)))
    = [a, b, c, d]"
proof -
  let ?n1 = "a - 48" and ?n2 = "10 * (a - 48) + (b - 48)"
  let ?n3 = "10 * (10 * (a - 48) + (b - 48)) + (c - 48)"
  note v = ascii_digit_val [OF assms(1)] ascii_digit_val [OF assms(2)]
    ascii_digit_val [OF assms(3)] ascii_digit_val [OF assms(4)]
  have l1: "length (decimal ?n1) \<le> 1"
    using assms by (simp add: one_digit)
  have l2: "length (decimal ?n2) \<le> 2"
    using length_decimal_step [of "b - 48" ?n1] l1 v by simp
  have l3: "length (decimal ?n3) \<le> 3"
    using length_decimal_step [of "c - 48" ?n2] l2 v by simp
  have z1: "zfill 1 (decimal ?n1) = [a]"
    using assms by (simp add: one_digit zfill_def)
  have z2: "zfill (Suc 1) (decimal ?n2) = zfill 1 (decimal ?n1) @ [48 + (b - 48)]"
    using v l1 by (intro zfill_decimal_step) simp_all
  have z3: "zfill (Suc 2) (decimal ?n3) = zfill 2 (decimal ?n2) @ [48 + (c - 48)]"
    using v l2 by (intro zfill_decimal_step) simp_all
  have z4: "zfill (Suc 3) (decimal (10 * ?n3 + (d - 48))) = zfill 3 (decimal ?n3) @ [48 + (d - 48)]"
    using v l3 by (intro zfill_decimal_step) simp_all
  have e: "Suc 1 = 2" "Suc 2 = 3" "Suc 3 = 4" by simp_all
  from z1 z2 z3 z4 v show ?thesis
    unfolding e by simp
qed

lemma length_decimal_ge: "10 ^ k \<le> n \<Longrightarrow> k < length (decimal n)"
proof (induction k arbitrary: n)
  case 0
  show ?case by (rule length_decimal_pos)
next
  case (Suc k)
  then have n: "10 \<le> n" and "10 ^ k \<le> n div 10"
    using le_trans [of 10 "10 * 10 ^ k" n] by simp_all
  then have "k < length (decimal (n div 10))" by (intro Suc.IH)
  with n show ?case
    by (subst decimal.simps) simp
qed

lemma zfill_long: "k \<le> length t \<Longrightarrow> zfill k t = t"
  by (simp add: zfill_def)

lemma py_int_ascii2:
  "ascii_digit a \<Longrightarrow> ascii_digit b \<Longrightarrow> py_int [a, b] = Inr (10 * (a - 48) + (b - 48))"
  using ascii_digit_val [of a] ascii_digit_val [of b]
  by (auto simp: py_int_def ascii_digit_def decimal_value_ascii)

lemma py_int_ascii4:
  "ascii_digit a \<Longrightarrow> ascii_digit b \<Longrightarrow> ascii_digit c \<Longrightarrow> ascii_digit d \<Longrightarrow>
   py_int [a, b, c, d] =
     Inr (10 * (10 * (10 * (a - 48) + (b - 48)) + (c - 48)) + (d - 48))"
  by (auto simp: py_int_def ascii_digit_def decimal_value_ascii)

lemma strict_formD:
  assumes "strict_form s"
  shows "\<exists>d1 d2 m1 m2 y1 y2 y3 y4.
    s = [d1, d2, 46, m1, m2, 46, y1, y2, y3, y4] \<and>
    ascii_digit d1 \<and> ascii_digit d2 \<and> ascii_digit m1 \<and> ascii_digit m2 \<and>
    ascii_digit y1 \<and> ascii_digit y2 \<and> ascii_digit y3 \<and> ascii_digit y4"
  using assms by (auto elim!: strict_form.elims)

lemma not_digit_46 [simp]: "\<not> ascii_digit 46" "\<not> ascii_digit 32"
  by (simp_all add: ascii_digit_def)

text \<open>
  C5 (amended). For every string of the strict form (two ASCII digits, a dot, two ASCII
  digits, a dot, four ASCII digits) that \<open>Birthday\<close> accepts, writing the stored date
  with \<open>strftime('%d.%m.%Y')\<close> gives the string back, when the C library pads \<open>%Y\<close> to
  four digits or the year is 1000 or later.
\<close>

theorem Birthday_round_trip:
  assumes "strict_form s" and "Birthday s = Inr b" and "pad \<or> 1000 \<le> year b"
  shows "strftime_dmY pad b = s"
proof -
  from strict_formD [OF assms(1)] obtain d1 d2 m1 m2 y1 y2 y3 y4 where
    s: "s = [d1, d2, 46, m1, m2, 46, y1, y2, y3, y4]" and
    dg: "ascii_digit d1" "ascii_digit d2" "ascii_digit m1" "ascii_digit m2"
      "ascii_digit y1" "ascii_digit y2" "ascii_digit y3" "ascii_digit y4"
    by blast
  from assms(2) Birthday_cases [of s] have "strptime_dmY s = Inr b" by auto
  from strptime_InrD [OF this] obtain d m y where
    f: "((d, m, y), []) \<in> set (format_regex s)" and
    i: "py_int d = Inr (day b)" "py_int m = Inr (month b)" "py_int y = Inr (year b)"
    by blast
  from format_regex_sound [OF f] obtain r1 r3 r5 where
    eq: "s = d @ [46] @ m @ [46] @ y" and
    g: "(d, r1) \<in> set (re_d (d @ r1))" "(m, r3) \<in> set (re_m (m @ r3))"
       "(y, r5) \<in> set (re_Y (y @ r5))"
    by auto
  have d: "d = [d1, d2]"
  proof -
    from re_d_sound [OF g(1)] consider
        a where "d = [a]"
      | c where "d = [32, c]"
      | a c where "d = [a, c]" "in_range 48 51 a"
      by blast
    then show ?thesis
    proof cases
      case 1
      with eq dg(2) show ?thesis unfolding s by simp
    next
      case 2
      with eq dg(1) show ?thesis unfolding s by simp
    next
      case 3
      with eq show ?thesis unfolding s by simp
    qed
  qed
  have m: "m = [m1, m2]"
  proof -
    from re_m_sound [OF g(2)] consider
        a where "m = [a]"
      | a c where "m = [a, c]"
      by blast
    then show ?thesis
    proof cases
      case 1
      with eq dg(4) show ?thesis unfolding s d by simp
    next
      case 2
      with eq show ?thesis unfolding s d by simp
    qed
  qed
  from eq have y: "y = [y1, y2, y3, y4]"
    unfolding s d m by simp
  from i dg have day: "day b = 10 * (d1 - 48) + (d2 - 48)"
    and month: "month b = 10 * (m1 - 48) + (m2 - 48)"
    and year: "year b = 10 * (10 * (10 * (y1 - 48) + (y2 - 48)) + (y3 - 48)) + (y4 - 48)"
    unfolding d m y by (simp_all add: py_int_ascii2 py_int_ascii4)
  have padded: "zfill 4 (decimal (year b)) = [y1, y2, y3, y4]"
    unfolding year by (rule four_digits) (rule dg)+
  have "decimal (year b) = [y1, y2, y3, y4]" if "1000 \<le> year b"
  proof -
    from that have "3 < length (decimal (year b))"
      by (intro length_decimal_ge) simp
    then have "zfill 4 (decimal (year b)) = decimal (year b)"
      by (intro zfill_long) simp
    with padded show ?thesis by simp
  qed
  with assms(3) padded
  have "(if pad then zfill 4 (decimal (year b)) else decimal (year b)) = [y1, y2, y3, y4]"
    by auto
  then show ?thesis
    unfolding strftime_dmY_def s using dg
    by (simp add: day month two_digits)
qed

section \<open>Birthdays on concrete strings\<close>

text \<open>C5 (amended) at 29.02.2024.\<close>

theorem Birthday_round_trip_witness:
  "strict_form (ascii ''29.02.2024'')
   \<and> Birthday (ascii ''29.02.2024'') = Inr \<lparr>year = 2024, month = 2, day = 29\<rparr>
   \<and> strftime_dmY False \<lparr>year = 2024, month = 2, day = 29\<rparr> = ascii ''29.02.2024''"
proof -
  have 1: "strict_form (ascii ''29.02.2024'')"
    by (simp add: ascii_simps ascii_digit_def)
  have 2: "Birthday (ascii ''29.02.2024'') = Inr \<lparr>year = 2024, month = 2, day = 29\<rparr>"
    by (simp add: parse_eval date_eval)
  have 3: "False \<or> 1000 \<le> year \<lparr>year = 2024, month = 2, day = 29\<rparr>"
    by simp
  from 1 2 Birthday_round_trip [OF 1 2 3] show ?thesis by simp
qed

text \<open>
  C5 (counterexample). \<open>Birthday\<close> accepts \<open>5.3.2001\<close>, and the stored date is written
  \<open>05.03.2001\<close> by either kind of C library: not the string that was read.
\<close>

theorem Birthday_round_trip_counterexample:
  "Birthday (ascii ''5.3.2001'') = Inr \<lparr>year = 2001, month = 3, day = 5\<rparr>
   \<and> strftime_dmY True \<lparr>year = 2001, month = 3, day = 5\<rparr> = ascii ''05.03.2001''
   \<and> strftime_dmY False \<lparr>year = 2001, month = 3, day = 5\<rparr> = ascii ''05.03.2001''
   \<and> ascii ''05.03.2001'' \<noteq> ascii ''5.3.2001''"
  by (simp add: parse_eval date_eval strftime_dmY_def zfill_def decimal.simps)

text \<open>
  C4 (counterexample). \<open>1.1.1990\<close> is not two digits, a dot, two digits, a dot and
  four digits, and \<open>Birthday\<close> accepts it: \<open>%d\<close> and \<open>%m\<close> also match a single digit.
\<close>

theorem Birthday_lenient_counterexample:
  "Birthday (ascii ''1.1.1990'') = Inr \<lparr>year = 1990, month = 1, day = 1\<rparr>
   \<and> \<not> strict_form (ascii ''1.1.1990'')"
  by (simp add: parse_eval date_eval)

text \<open>C4 (amended) at 29 February of a leap year, beside a year that is not one.\<close>

theorem Birthday_accepts_only_dates_witness:
  "Birthday (ascii ''29.02.2023'') = Inl (ValueError ''Invalid date format. Use DD.MM.YYYY'')
   \<and> Birthday (ascii ''29.02.2024'') = Inr \<lparr>year = 2024, month = 2, day = 29\<rparr>
   \<and> valid_date \<lparr>year = 2024, month = 2, day = 29\<rparr>"
proof -
  have 1: "Birthday (ascii ''29.02.2023'') = Inl (ValueError ''Invalid date format. Use DD.MM.YYYY'')"
    by (simp add: parse_eval date_eval)
  have 2: "Birthday (ascii ''29.02.2024'') = Inr \<lparr>year = 2024, month = 2, day = 29\<rparr>"
    by (simp add: parse_eval date_eval)
  from Birthday_accepts_only_dates [of "ascii ''29.02.2024''"] 1 2 show ?thesis
    by auto
qed

section \<open>Further behaviour on concrete inputs\<close>

text \<open>
  \<open>Phone\<close> accepts ten Arabic-Indic digits (U+0660..U+0669): \<open>\d\<close> is not limited to
  ASCII.
\<close>

lemma Phone_arabic_indic_digits:
  "Phone [1632, 1633, 1634, 1635, 1636, 1637, 1638, 1639, 1640, 1641]
   = Inr [1632, 1633, 1634, 1635, 1636, 1637, 1638, 1639, 1640, 1641]
   \<and> \<not> list_all ascii_digit [1632, 1633, 1634, 1635, 1636, 1637, 1638, 1639, 1640, 1641]"
  by (simp add: Phone_def validate_number_def re_match_digits_def re_digit_def
      decimal_value_def nd_zeros_def ascii_digit_def)

text \<open>
  With a C library that does not pad \<open>%Y\<close>, a year before 1000 is written with fewer
  than four digits, so the strict form does not come back.
\<close>

lemma unpadded_year_before_1000:
  "strict_form (ascii ''01.01.0999'')
   \<and> Birthday (ascii ''01.01.0999'') = Inr \<lparr>year = 999, month = 1, day = 1\<rparr>
   \<and> strftime_dmY False \<lparr>year = 999, month = 1, day = 1\<rparr> = ascii ''01.01.999''"
  by (simp add: parse_eval date_eval strftime_dmY_def zfill_def decimal.simps)

text \<open>Editing a number to itself leaves it findable.\<close>

lemma edit_phone_same_number:
  "find_phone (ascii ''0991234567'')
     (snd (edit_phone (ascii ''0991234567'') (ascii ''0991234567'')
        \<lparr>name = ascii ''Mia'', phones = [ascii ''0991234567''], birthday = None\<rparr>))
   = Inr (ascii ''0991234567'')"
  by (simp add: edit_phone_def remove_phone_valid add_phone_valid valid_0991234567
      find_phone_def)

text \<open>
  In the last week of the year 9999 the window cannot be computed: the sum
  \<open>today + timedelta(days=7)\<close> raises \<open>OverflowError\<close> as soon as one candidate date is
  not before \<open>today\<close>.
\<close>

lemma upcoming_birthdays_overflow:
  "get_upcoming_birthdays False \<lparr>year = 9999, month = 12, day = 28\<rparr>
     [(ascii ''Mia'', \<lparr>name = ascii ''Mia'', phones = [],
        birthday = Some \<lparr>year = 1990, month = 12, day = 30\<rparr>\<rparr>)]
   = Inl (OverflowError ''date value out of range'')"
  by (simp add: get_upcoming_birthdays_def add_days_def funpow_7 date_eval)

text \<open>
  In a year before 1000 and with a C library that does not pad \<open>%Y\<close>, the candidate
  date of an upcoming birthday is written with a year of three digits.
\<close>

lemma upcoming_birthdays_year_999:
  "get_upcoming_birthdays False \<lparr>year = 999, month = 12, day = 20\<rparr>
     [(ascii ''Mia'', \<lparr>name = ascii ''Mia'', phones = [],
        birthday = Some \<lparr>year = 1990, month = 12, day = 25\<rparr>\<rparr>)]
   = Inr [(ascii ''Mia'', ascii ''25.12.999'')]
   \<and> \<not> strict_form (ascii ''25.12.999'')"
  by (simp add: get_upcoming_birthdays_def add_days_def funpow_7 date_eval strftime_dmY_def
      zfill_def decimal.simps ascii_simps)

end
